theory Spec2Isabelle
  imports Main
begin

section \<open>The ShowMnemonic component of the wallet's account list\<close>

text \<open>
  The source is one file, \<^verbatim>\<open>nym-wallet/src/components/Accounts/ShowMnemonic.tsx\<close>: the
  lookup \<^verbatim>\<open>fetchMnemonic\<close> and the React component \<^verbatim>\<open>ShowMnemonic\<close> with two state
  hooks, one effect, one click handler and its JSX. The accounts table comes from
  \<^verbatim>\<open>./mocks\<close>, which is not part of the sources at hand; every definition below takes
  the table as a parameter.
\<close>

subsection \<open>Data\<close>

text \<open>
  A row of the accounts table. The source reads two fields of it, \<^verbatim>\<open>acc.name\<close> and
  \<^verbatim>\<open>account.mnemonic\<close>, both strings.
\<close>

record account =
  name :: string
  mnemonic :: string

text \<open>
  The promise a lookup returns, by the way it settles. \<^verbatim>\<open>res\<close> is called either inside
  the executor (the promise is fulfilled when \<^verbatim>\<open>fetchMnemonic\<close> returns) or from the
  callback of \<^verbatim>\<open>setTimeout(..., 0)\<close> (it is fulfilled by a later timer task). A promise
  can also reject; the third constructor is that outcome.
\<close>

datatype 'a promise = Fulfilled 'a | FulfilledByTimer 'a | Rejected

fun resolution :: "'a promise \<Rightarrow> 'a option" where
  "resolution (Fulfilled v) = Some v"
| "resolution (FulfilledByTimer v) = Some v"
| "resolution Rejected = None"

text \<open>
  The component's state: the two \<^verbatim>\<open>useState<string>()\<close> hooks, \<^verbatim>\<open>undefined\<close> being
  \<open>None\<close>, and the lookups that were started and have not settled yet, oldest first
  (each is an \<^verbatim>\<open>await\<close> of \<^verbatim>\<open>getMnemonic\<close> that has not resumed).
\<close>

record state =
  showMnemonic :: "string option"
  mnemonic :: "string option"
  inflight :: "string promise list"

text \<open>The mouse event handed to the click handler; \<^verbatim>\<open>stopPropagation\<close> sets its flag.\<close>

record mouse_event =
  propagationStopped :: bool

text \<open>
  What the JSX produces: the text of the underlined label, and the caption under it when
  there is one.
\<close>

record rendered =
  label :: string
  caption :: "string option"

datatype event = Click | LookupSettles

subsection \<open>fetchMnemonic\<close>

text \<open>
  \<^verbatim>\<open>accounts.find((acc) => acc.name === accountName)\<close> is the first row with that name;
  a row is an object, so \<^verbatim>\<open>if (account)\<close> asks whether one was found.
\<close>

definition fetchMnemonic :: "account list \<Rightarrow> string \<Rightarrow> string promise" where
  "fetchMnemonic accounts accountName =
     (case find (\<lambda>acc. name acc = accountName) accounts of
        Some account \<Rightarrow> FulfilledByTimer (account.mnemonic account)
      | None \<Rightarrow> Fulfilled ''n/a'')"

subsection \<open>The component\<close>

text \<open>
  JavaScript's truth value of a \<^verbatim>\<open>string | undefined\<close>: \<^verbatim>\<open>undefined\<close> and the empty
  string are false, every other string is true.
\<close>

fun truthy :: "string option \<Rightarrow> bool" where
  "truthy None = False"
| "truthy (Some v) = (v \<noteq> [])"

definition initial :: state where
  "initial = \<lparr>showMnemonic = None, mnemonic = None, inflight = []\<rparr>"

text \<open>
  The click handler: \<^verbatim>\<open>e.stopPropagation()\<close>, then
  \<^verbatim>\<open>setShowMnemonic((show) => (!show ? accountName : undefined))\<close>.
\<close>

definition onClick :: "string \<Rightarrow> mouse_event \<times> state \<Rightarrow> mouse_event \<times> state" where
  "onClick accountName es =
     (case es of (e, s) \<Rightarrow>
        (e\<lparr>propagationStopped := True\<rparr>,
         s\<lparr>showMnemonic := (if \<not> truthy (showMnemonic s) then Some accountName else None)\<rparr>))"

text \<open>
  The body of the effect. \<^verbatim>\<open>getMnemonic()\<close> runs up to its \<^verbatim>\<open>await\<close>: the lookup is
  started and the stored mnemonic is left as it is. The other branch is
  \<^verbatim>\<open>setMnemonic(undefined)\<close>.
\<close>

definition useEffect :: "account list \<Rightarrow> string \<Rightarrow> state \<Rightarrow> state" where
  "useEffect accounts accountName s =
     (if truthy (showMnemonic s)
      then s\<lparr>inflight := inflight s @ [fetchMnemonic accounts accountName]\<rparr>
      else s\<lparr>mnemonic := None\<rparr>)"

text \<open>
  The rest of \<^verbatim>\<open>getMnemonic\<close>, after its \<^verbatim>\<open>await\<close>: \<^verbatim>\<open>setMnemonic(mnic)\<close> with the value
  the promise was fulfilled with, whatever the state is by then. A rejected promise makes
  the \<^verbatim>\<open>await\<close> throw, and \<^verbatim>\<open>setMnemonic\<close> is not reached.
\<close>

definition getMnemonic_resume :: "string promise \<Rightarrow> state \<Rightarrow> state" where
  "getMnemonic_resume p s =
     (case resolution p of Some mnic \<Rightarrow> s\<lparr>mnemonic := Some mnic\<rparr> | None \<Rightarrow> s)"

text \<open>
  The dependency array of the effect is \<^verbatim>\<open>[showMnemonic]\<close>: after a render the effect
  runs when \<^verbatim>\<open>showMnemonic\<close> is not the value of the render before (\<^verbatim>\<open>Object.is\<close>, which
  on strings and \<^verbatim>\<open>undefined\<close> is equality).
\<close>

definition commit :: "account list \<Rightarrow> string \<Rightarrow> state \<Rightarrow> state \<Rightarrow> state" where
  "commit accounts accountName prev s =
     (if showMnemonic s \<noteq> showMnemonic prev then useEffect accounts accountName s else s)"

text \<open>
  The state the handler leaves. React renders it and commits that render before any
  effect runs: the label is already that of the new \<^verbatim>\<open>showMnemonic\<close>, and the stored
  mnemonic is the one from before the click.
\<close>

definition handled :: "string \<Rightarrow> state \<Rightarrow> state" where
  "handled accountName s = snd (onClick accountName (\<lparr>propagationStopped = False\<rparr>, s))"

text \<open>
  A click on the label, through to the end: the handler, the commit of the render it
  causes, and then the effect of that render, if its dependency changed. The effect is
  a passive one: it runs after the commit (on a legacy root after the click has
  returned), and before React renders again. \<open>click\<close> is the state at rest after it;
  the state committed in between is \<open>handled\<close>.
\<close>

definition click :: "account list \<Rightarrow> string \<Rightarrow> state \<Rightarrow> state" where
  "click accounts accountName s =
     commit accounts accountName s (handled accountName s)"

text \<open>
  The oldest lookup in flight settles and \<^verbatim>\<open>getMnemonic\<close> resumes. With no lookup in
  flight there is nothing to settle. All lookups of one component are of one kind, and
  timers of equal delay fire, and promise jobs run, in the order they were made. A
  promise of either kind resumes \<^verbatim>\<open>getMnemonic\<close> in a later job; the event sequences
  below let any number of clicks come before it, which for a promise fulfilled inside
  the executor is more than a browser does between two clicks of a user.
\<close>

definition settle :: "state \<Rightarrow> state" where
  "settle s =
     (case inflight s of
        [] \<Rightarrow> s
      | p # ps \<Rightarrow> getMnemonic_resume p (s\<lparr>inflight := ps\<rparr>))"

text \<open>
  An event of a sequence is taken through to its state at rest: a click with its effect,
  a settled lookup with the render it causes (which has no effect to run, since
  \<^verbatim>\<open>showMnemonic\<close> is as before).
\<close>

fun step :: "account list \<Rightarrow> string \<Rightarrow> event \<Rightarrow> state \<Rightarrow> state" where
  "step accounts accountName Click s = click accounts accountName s"
| "step accounts accountName LookupSettles s = settle s"

fun run :: "account list \<Rightarrow> string \<Rightarrow> event list \<Rightarrow> state \<Rightarrow> state" where
  "run accounts accountName [] s = s"
| "run accounts accountName (ev # evs) s =
     run accounts accountName evs (step accounts accountName ev s)"

text \<open>
  Mounting renders the initial state and runs the effect once; the component then lives
  through a sequence of events, with the \<^verbatim>\<open>accountName\<close> it was mounted with.
\<close>

definition mounted :: "account list \<Rightarrow> string \<Rightarrow> state" where
  "mounted accounts accountName = useEffect accounts accountName initial"

definition after :: "account list \<Rightarrow> string \<Rightarrow> event list \<Rightarrow> state" where
  "after accounts accountName evs =
     run accounts accountName evs (mounted accounts accountName)"

text \<open>
  The JSX: the label is \<^verbatim>\<open>`${showMnemonic ? 'Hide' : 'Show'} mnemonic`\<close>, and
  \<^verbatim>\<open>{mnemonic && <Typography variant="caption">{mnemonic}</Typography>}\<close> gives the
  caption when \<^verbatim>\<open>mnemonic\<close> is true as a JavaScript value.
\<close>

definition render :: "state \<Rightarrow> rendered" where
  "render s =
     \<lparr>label = (if truthy (showMnemonic s) then ''Hide'' else ''Show'') @ '' mnemonic'',
      caption = (if truthy (mnemonic s) then mnemonic s else None)\<rparr>"

section \<open>Properties\<close>

subsection \<open>The lookup\<close>

lemma fetchMnemonic_first:
  assumes "i < length accounts" and "name (accounts ! i) = accountName"
    and "\<forall>j<i. name (accounts ! j) \<noteq> accountName"
  shows "fetchMnemonic accounts accountName =
    FulfilledByTimer (account.mnemonic (accounts ! i))"
proof -
  have "find (\<lambda>acc. name acc = accountName) accounts = Some (accounts ! i)"
    using assms by (auto simp: find_Some_iff)
  then show ?thesis by (simp add: fetchMnemonic_def)
qed

lemma fetchMnemonic_none:
  assumes "\<forall>acc\<in>set accounts. name acc \<noteq> accountName"
  shows "fetchMnemonic accounts accountName = Fulfilled ''n/a''"
proof -
  have "find (\<lambda>acc. name acc = accountName) accounts = None"
    using assms by (simp add: find_None_iff)
  then show ?thesis by (simp add: fetchMnemonic_def)
qed

lemma fetchMnemonic_cases:
  "(\<exists>acc\<in>set accounts. name acc = accountName \<and>
      fetchMnemonic accounts accountName = FulfilledByTimer (account.mnemonic acc)) \<or>
   ((\<forall>acc\<in>set accounts. name acc \<noteq> accountName) \<and>
      fetchMnemonic accounts accountName = Fulfilled ''n/a'')"
proof (cases "find (\<lambda>acc. name acc = accountName) accounts")
  case None
  then have "\<forall>acc\<in>set accounts. name acc \<noteq> accountName"
    by (simp add: find_None_iff)
  with None show ?thesis by (simp add: fetchMnemonic_def)
next
  case (Some a)
  then have "a \<in> set accounts" and "name a = accountName"
    by (auto simp: find_Some_iff)
  with Some show ?thesis by (auto simp: fetchMnemonic_def)
qed

lemma fetchMnemonic_resolution:
  "\<exists>mnic. resolution (fetchMnemonic accounts accountName) = Some mnic"
  using fetchMnemonic_cases [of accounts accountName] by auto

text \<open>
  C1. A lookup by a name that a row of the table carries resolves with that row's
  mnemonic, and a lookup by a name that no row carries resolves with the string
  \<open>''n/a''\<close>. The row a name matches is the one \<^verbatim>\<open>find\<close> returns, the first row with
  the name (first conjunct); it is any row with the name as soon as the rows with the
  name agree on the mnemonic, as they do in a table with one row per name (second
  conjunct). In the first case the promise is fulfilled from a timer callback, in the
  second inside the executor (third conjunct).
\<close>

theorem fetchMnemonic_resolves:
  "(\<forall>i<length accounts.
      name (accounts ! i) = accountName \<and> (\<forall>j<i. name (accounts ! j) \<noteq> accountName) \<longrightarrow>
      fetchMnemonic accounts accountName =
        FulfilledByTimer (account.mnemonic (accounts ! i))) \<and>
   (\<forall>acc\<in>set accounts.
      name acc = accountName \<and>
      (\<forall>other\<in>set accounts.
         name other = accountName \<longrightarrow> account.mnemonic other = account.mnemonic acc) \<longrightarrow>
      resolution (fetchMnemonic accounts accountName) = Some (account.mnemonic acc)) \<and>
   ((\<forall>acc\<in>set accounts. name acc \<noteq> accountName) \<longrightarrow>
      fetchMnemonic accounts accountName = Fulfilled ''n/a'' \<and>
      resolution (fetchMnemonic accounts accountName) = Some ''n/a'')"
proof (intro conjI allI impI ballI)
  fix i
  assume "i < length accounts"
    and "name (accounts ! i) = accountName \<and> (\<forall>j<i. name (accounts ! j) \<noteq> accountName)"
  then show "fetchMnemonic accounts accountName =
      FulfilledByTimer (account.mnemonic (accounts ! i))"
    by (simp add: fetchMnemonic_first)
next
  fix acc
  assume acc: "acc \<in> set accounts"
    and same: "name acc = accountName \<and>
      (\<forall>other\<in>set accounts.
         name other = accountName \<longrightarrow> account.mnemonic other = account.mnemonic acc)"
  from fetchMnemonic_cases [of accounts accountName]
  show "resolution (fetchMnemonic accounts accountName) = Some (account.mnemonic acc)"
  proof
    assume "\<exists>a\<in>set accounts. name a = accountName \<and>
      fetchMnemonic accounts accountName = FulfilledByTimer (account.mnemonic a)"
    then obtain a where "a \<in> set accounts" and "name a = accountName"
      and "fetchMnemonic accounts accountName = FulfilledByTimer (account.mnemonic a)"
      by blast
    with same show ?thesis by simp
  next
    assume "(\<forall>a\<in>set accounts. name a \<noteq> accountName) \<and>
      fetchMnemonic accounts accountName = Fulfilled ''n/a''"
    with acc same show ?thesis by blast
  qed
next
  assume none: "\<forall>acc\<in>set accounts. name acc \<noteq> accountName"
  then show "fetchMnemonic accounts accountName = Fulfilled ''n/a''"
    by (rule fetchMnemonic_none)
  from none show "resolution (fetchMnemonic accounts accountName) = Some ''n/a''"
    by (simp add: fetchMnemonic_none)
qed

theorem fetchMnemonic_resolves_witness:
  "fetchMnemonic
     [\<lparr>name = ''bob'', mnemonic = ''kiwi lemon''\<rparr>,
      \<lparr>name = ''alice'', mnemonic = ''apple banana cherry''\<rparr>] ''alice'' =
     FulfilledByTimer ''apple banana cherry'' \<and>
   resolution (fetchMnemonic
     [\<lparr>name = ''bob'', mnemonic = ''kiwi lemon''\<rparr>,
      \<lparr>name = ''alice'', mnemonic = ''apple banana cherry''\<rparr>] ''bob'') =
     Some ''kiwi lemon'' \<and>
   fetchMnemonic
     [\<lparr>name = ''bob'', mnemonic = ''kiwi lemon''\<rparr>,
      \<lparr>name = ''alice'', mnemonic = ''apple banana cherry''\<rparr>] ''ghost'' =
     Fulfilled ''n/a''"
proof -
  let ?t = "[\<lparr>name = ''bob'', mnemonic = ''kiwi lemon''\<rparr>,
             \<lparr>name = ''alice'', mnemonic = ''apple banana cherry''\<rparr>]"
  have one: "(1::nat) < length ?t" by simp
  have first: "name (?t ! 1) = ''alice'' \<and> (\<forall>j<1. name (?t ! j) \<noteq> ''alice'')"
    by simp
  have a: "fetchMnemonic ?t ''alice'' = FulfilledByTimer (account.mnemonic (?t ! 1))"
    using fetchMnemonic_resolves [of ?t "''alice''"] one first by blast
  have bob: "\<lparr>name = ''bob'', mnemonic = ''kiwi lemon''\<rparr> \<in> set ?t" by simp
  have agree: "name \<lparr>name = ''bob'', mnemonic = ''kiwi lemon''\<rparr> = ''bob'' \<and>
     (\<forall>other\<in>set ?t. name other = ''bob'' \<longrightarrow>
        account.mnemonic other = account.mnemonic \<lparr>name = ''bob'', mnemonic = ''kiwi lemon''\<rparr>)"
    by simp
  have b: "resolution (fetchMnemonic ?t ''bob'') =
     Some (account.mnemonic \<lparr>name = ''bob'', mnemonic = ''kiwi lemon''\<rparr>)"
    using fetchMnemonic_resolves [of ?t "''bob''"] bob agree by blast
  have none: "\<forall>acc\<in>set ?t. name acc \<noteq> ''ghost''" by simp
  have g: "fetchMnemonic ?t ''ghost'' = Fulfilled ''n/a''"
    using fetchMnemonic_resolves [of ?t "''ghost''"] none by blast
  from a b g show ?thesis by simp
qed

subsection \<open>Steps of the component\<close>

lemma falsy_cases: "\<not> truthy v \<longleftrightarrow> v = None \<or> v = Some []"
  by (cases v) auto

lemma mounted_initial: "mounted accounts accountName = initial"
  by (simp add: mounted_def useEffect_def initial_def)


lemma click_hide:
  "truthy (showMnemonic s) \<Longrightarrow>
   click accounts accountName s = s\<lparr>showMnemonic := None, mnemonic := None\<rparr>"
  by (auto simp: click_def handled_def commit_def onClick_def useEffect_def)

lemma click_reveal:
  "\<not> truthy (showMnemonic s) \<Longrightarrow> accountName \<noteq> [] \<Longrightarrow>
   click accounts accountName s =
     s\<lparr>showMnemonic := Some accountName,
       inflight := inflight s @ [fetchMnemonic accounts accountName]\<rparr>"
  by (auto simp: click_def handled_def commit_def onClick_def useEffect_def falsy_cases)

lemma settle_Nil: "inflight s = [] \<Longrightarrow> settle s = s"
  by (simp add: settle_def)

lemma settle_Cons:
  "inflight s = p # ps \<Longrightarrow> resolution p = Some mnic \<Longrightarrow>
   settle s = s\<lparr>mnemonic := Some mnic, inflight := ps\<rparr>"
  by (simp add: settle_def getMnemonic_resume_def)

lemma showMnemonic_settle: "showMnemonic (settle s) = showMnemonic s"
  by (simp add: settle_def getMnemonic_resume_def split: list.splits option.splits)

lemma showMnemonic_settles:
  "showMnemonic (run accounts accountName (replicate k LookupSettles) s) = showMnemonic s"
  by (induction k arbitrary: s) (simp_all add: showMnemonic_settle)

lemma run_append:
  "run accounts accountName (evs @ evs') s =
   run accounts accountName evs' (run accounts accountName evs s)"
  by (induction evs arbitrary: s) simp_all

lemma after_snoc:
  "after accounts accountName (evs @ [ev]) =
   step accounts accountName ev (after accounts accountName evs)"
  by (simp add: after_def run_append)

lemma run_invariant:
  assumes "P s" and "\<And>ev s. P s \<Longrightarrow> P (step accounts accountName ev s)"
  shows "P (run accounts accountName evs s)"
  using assms(1) by (induction evs arbitrary: s) (simp_all add: assms(2))

lemma after_Click:
  "after accounts accountName [Click] =
     (if accountName = [] then initial\<lparr>showMnemonic := Some []\<rparr>
      else initial\<lparr>showMnemonic := Some accountName,
             inflight := [fetchMnemonic accounts accountName]\<rparr>)"
  by (simp add: after_def mounted_initial click_def handled_def commit_def onClick_def useEffect_def
      initial_def)

lemma after_Click_Click:
  "accountName \<noteq> [] \<Longrightarrow>
   after accounts accountName [Click, Click] =
     \<lparr>showMnemonic = None, mnemonic = None,
      inflight = [fetchMnemonic accounts accountName]\<rparr>"
  using after_snoc [of accounts accountName "[Click]" Click]
  by (simp add: after_Click click_hide initial_def)

lemma after_Click_Settle:
  assumes "accountName \<noteq> []"
    and "resolution (fetchMnemonic accounts accountName) = Some mnic"
  shows "after accounts accountName [Click, LookupSettles] =
     \<lparr>showMnemonic = Some accountName, mnemonic = Some mnic, inflight = []\<rparr>"
proof -
  have "after accounts accountName [Click, LookupSettles] =
      settle (after accounts accountName [Click])"
    using after_snoc [of accounts accountName "[Click]" LookupSettles] by simp
  with assms show ?thesis
    by (simp add: after_Click settle_def getMnemonic_resume_def initial_def)
qed

subsection \<open>What every reachable state satisfies\<close>

text \<open>
  Every lookup in flight is the promise of \<open>fetchMnemonic accounts accountName\<close>, the
  stored mnemonic is absent or what that promise resolves with, and \<open>showMnemonic\<close> is
  absent or the account name.
\<close>

lemma agree_step:
  assumes "list_all (\<lambda>p. p = fetchMnemonic accounts accountName) (inflight s) \<and>
      (mnemonic s = None \<or> mnemonic s = resolution (fetchMnemonic accounts accountName)) \<and>
      (showMnemonic s = None \<or> showMnemonic s = Some accountName)"
  shows "list_all (\<lambda>p. p = fetchMnemonic accounts accountName)
        (inflight (step accounts accountName ev s)) \<and>
      (mnemonic (step accounts accountName ev s) = None \<or>
       mnemonic (step accounts accountName ev s) =
         resolution (fetchMnemonic accounts accountName)) \<and>
      (showMnemonic (step accounts accountName ev s) = None \<or>
       showMnemonic (step accounts accountName ev s) = Some accountName)"
proof (cases ev)
  case Click
  show ?thesis
  proof (cases "truthy (showMnemonic s)")
    case True
    with assms Click show ?thesis by (simp add: click_hide)
  next
    case False
    with assms Click show ?thesis
      by (auto simp: click_def handled_def commit_def onClick_def useEffect_def)
  qed
next
  case LookupSettles
  show ?thesis
  proof (cases "inflight s")
    case Nil
    with assms LookupSettles show ?thesis by (simp add: settle_Nil)
  next
    case (Cons p ps)
    with assms have "p = fetchMnemonic accounts accountName" by simp
    with Cons assms LookupSettles show ?thesis
      by (auto simp: settle_def getMnemonic_resume_def split: option.splits)
  qed
qed

lemma agree_after:
  "list_all (\<lambda>p. p = fetchMnemonic accounts accountName)
     (inflight (after accounts accountName evs)) \<and>
   (mnemonic (after accounts accountName evs) = None \<or>
    mnemonic (after accounts accountName evs) =
      resolution (fetchMnemonic accounts accountName)) \<and>
   (showMnemonic (after accounts accountName evs) = None \<or>
    showMnemonic (after accounts accountName evs) = Some accountName)"
  unfolding after_def
proof (rule run_invariant)
  show "list_all (\<lambda>p. p = fetchMnemonic accounts accountName)
     (inflight (mounted accounts accountName)) \<and>
   (mnemonic (mounted accounts accountName) = None \<or>
    mnemonic (mounted accounts accountName) =
      resolution (fetchMnemonic accounts accountName)) \<and>
   (showMnemonic (mounted accounts accountName) = None \<or>
    showMnemonic (mounted accounts accountName) = Some accountName)"
    by (simp add: mounted_initial initial_def)
qed (rule agree_step)

text \<open>
  Two tables on which the lookup resolves with the same string give the same two state
  variables after the same events; the promises in flight may differ in how they are
  fulfilled, not in what with.
\<close>

lemma sim_step:
  assumes eq: "resolution (fetchMnemonic A accountName) =
      resolution (fetchMnemonic B accountName)"
    and rel: "showMnemonic s = showMnemonic t \<and> mnemonic s = mnemonic t \<and>
      map resolution (inflight s) = map resolution (inflight t)"
  shows "showMnemonic (step A accountName ev s) = showMnemonic (step B accountName ev t) \<and>
      mnemonic (step A accountName ev s) = mnemonic (step B accountName ev t) \<and>
      map resolution (inflight (step A accountName ev s)) =
        map resolution (inflight (step B accountName ev t))"
proof (cases ev)
  case Click
  with eq rel show ?thesis
    by (auto simp: click_def handled_def commit_def onClick_def useEffect_def)
next
  case LookupSettles
  show ?thesis
  proof (cases "inflight s")
    case Nil
    with rel have "inflight t = []" by simp
    with Nil rel LookupSettles show ?thesis by (simp add: settle_Nil)
  next
    case (Cons p ps)
    with rel obtain q qs where "inflight t = q # qs"
      and "resolution p = resolution q" and "map resolution ps = map resolution qs"
      by (cases "inflight t") auto
    with Cons rel LookupSettles show ?thesis
      by (auto simp: settle_def getMnemonic_resume_def split: option.splits)
  qed
qed

lemma sim_run:
  assumes eq: "resolution (fetchMnemonic A accountName) =
      resolution (fetchMnemonic B accountName)"
    and rel: "showMnemonic s = showMnemonic t \<and> mnemonic s = mnemonic t \<and>
      map resolution (inflight s) = map resolution (inflight t)"
  shows "showMnemonic (run A accountName evs s) = showMnemonic (run B accountName evs t) \<and>
      mnemonic (run A accountName evs s) = mnemonic (run B accountName evs t) \<and>
      map resolution (inflight (run A accountName evs s)) =
        map resolution (inflight (run B accountName evs t))"
  using rel
proof (induction evs arbitrary: s t)
  case Nil
  then show ?case by simp
next
  case (Cons ev evs)
  show ?case
    unfolding run.simps
    by (rule Cons.IH) (rule sim_step [OF eq Cons.prems])
qed

lemma render_same_resolution:
  assumes "resolution (fetchMnemonic A accountName) =
      resolution (fetchMnemonic B accountName)"
  shows "render (after A accountName evs) = render (after B accountName evs)"
proof -
  have "showMnemonic (after A accountName evs) = showMnemonic (after B accountName evs) \<and>
      mnemonic (after A accountName evs) = mnemonic (after B accountName evs) \<and>
      map resolution (inflight (after A accountName evs)) =
        map resolution (inflight (after B accountName evs))"
    unfolding after_def by (rule sim_run [OF assms]) (simp add: mounted_initial)
  then show ?thesis by (simp add: render_def)
qed

text \<open>
  With the empty string as account name the click stores \<open>Some []\<close>, which the effect
  and the label read as false: nothing is looked up and nothing is stored.
\<close>

lemma empty_name_step:
  assumes "mnemonic s = None \<and> inflight s = [] \<and> \<not> truthy (showMnemonic s)"
  shows "mnemonic (step accounts [] ev s) = None \<and>
     inflight (step accounts [] ev s) = [] \<and>
     \<not> truthy (showMnemonic (step accounts [] ev s))"
proof (cases ev)
  case Click
  with assms show ?thesis
    by (auto simp: click_def handled_def commit_def onClick_def useEffect_def)
next
  case LookupSettles
  with assms show ?thesis by (simp add: settle_Nil)
qed

lemma empty_name_after:
  "mnemonic (after accounts [] evs) = None \<and> inflight (after accounts [] evs) = [] \<and>
     \<not> truthy (showMnemonic (after accounts [] evs))"
  unfolding after_def
proof (rule run_invariant)
  show "mnemonic (mounted accounts []) = None \<and> inflight (mounted accounts []) = [] \<and>
     \<not> truthy (showMnemonic (mounted accounts []))"
    by (simp add: mounted_initial initial_def)
qed (rule empty_name_step)

section \<open>The claims about the component\<close>

subsection \<open>Hiding\<close>

text \<open>
  C3 says that the stored mnemonic is cleared in step with reveal state becoming not
  revealed. The handler changes \<open>showMnemonic\<close> and nothing else, so the render
  committed after a click that hides still has the mnemonic stored and shows it under
  the label \<open>''Show mnemonic''\<close>. Here a click has revealed, the lookup has settled,
  and a second click has been handled.
\<close>

theorem hide_commit_keeps_mnemonic:
  "showMnemonic (after [\<lparr>name = ''alice'', mnemonic = ''apple banana cherry''\<rparr>] ''alice''
     [Click, LookupSettles]) = Some ''alice'' \<and>
   showMnemonic (handled ''alice''
     (after [\<lparr>name = ''alice'', mnemonic = ''apple banana cherry''\<rparr>] ''alice''
        [Click, LookupSettles])) = None \<and>
   mnemonic (handled ''alice''
     (after [\<lparr>name = ''alice'', mnemonic = ''apple banana cherry''\<rparr>] ''alice''
        [Click, LookupSettles])) = Some ''apple banana cherry'' \<and>
   render (handled ''alice''
     (after [\<lparr>name = ''alice'', mnemonic = ''apple banana cherry''\<rparr>] ''alice''
        [Click, LookupSettles])) =
     \<lparr>label = ''Show mnemonic'', caption = Some ''apple banana cherry''\<rparr>"
  by (simp add: after_def mounted_def initial_def click_def handled_def commit_def
      onClick_def useEffect_def settle_def getMnemonic_resume_def fetchMnemonic_def
      render_def)

text \<open>
  C3, as the code has it. Reveal state changes by a click only: a lookup that settles
  leaves it as it is. The handler of a click leaves the stored mnemonic and the lookups
  in flight as they are; the render with the new reveal state is committed with the
  mnemonic of before. Whenever the click has changed reveal state to a value that reads
  as not revealed, the effect of that render runs, and it is the effect that leaves the
  stored mnemonic absent. It does so whatever is in flight, and the lookups in flight
  stay exactly as they were: none is waited for and none is dropped. In particular this
  is what happens on a click in every state that reads as revealed.
\<close>

theorem hide_effect_clears_mnemonic:
  "showMnemonic (settle s) = showMnemonic s \<and>
   mnemonic (handled accountName s) = mnemonic s \<and>
   inflight (handled accountName s) = inflight s \<and>
   (showMnemonic (handled accountName s) \<noteq> showMnemonic s \<and>
    \<not> truthy (showMnemonic (handled accountName s)) \<longrightarrow>
      click accounts accountName s = useEffect accounts accountName (handled accountName s) \<and>
      showMnemonic (click accounts accountName s) = showMnemonic (handled accountName s) \<and>
      mnemonic (click accounts accountName s) = None \<and>
      inflight (click accounts accountName s) = inflight s) \<and>
   (truthy (showMnemonic s) \<longrightarrow>
      showMnemonic (handled accountName s) = None \<and>
      showMnemonic (click accounts accountName s) = None \<and>
      mnemonic (click accounts accountName s) = None \<and>
      inflight (click accounts accountName s) = inflight s)"
proof (intro conjI impI)
  show "showMnemonic (settle s) = showMnemonic s"
    by (rule showMnemonic_settle)
  show "mnemonic (handled accountName s) = mnemonic s"
    and "inflight (handled accountName s) = inflight s"
    by (simp_all add: handled_def onClick_def)
next
  assume h: "showMnemonic (handled accountName s) \<noteq> showMnemonic s \<and>
    \<not> truthy (showMnemonic (handled accountName s))"
  then show eff: "click accounts accountName s =
      useEffect accounts accountName (handled accountName s)"
    by (simp add: click_def commit_def)
  from h show "showMnemonic (click accounts accountName s) =
      showMnemonic (handled accountName s)"
    by (simp add: eff useEffect_def)
  from h show "mnemonic (click accounts accountName s) = None"
    by (simp add: eff useEffect_def)
  from h show "inflight (click accounts accountName s) = inflight s"
    by (simp add: eff useEffect_def handled_def onClick_def)
next
  assume "truthy (showMnemonic s)"
  then show "showMnemonic (handled accountName s) = None"
    and "showMnemonic (click accounts accountName s) = None"
    and "mnemonic (click accounts accountName s) = None"
    and "inflight (click accounts accountName s) = inflight s"
    by (simp_all add: click_hide handled_def onClick_def)
qed

text \<open>
  The state of the witness is reached by reveal, hide, reveal and one lookup settling:
  a mnemonic is stored and the second lookup is still in flight when the click hides.
\<close>

theorem hide_effect_clears_mnemonic_witness:
  "after [\<lparr>name = ''alice'', mnemonic = ''apple banana cherry''\<rparr>] ''alice''
     [Click, Click, Click, LookupSettles] =
     \<lparr>showMnemonic = Some ''alice'', mnemonic = Some ''apple banana cherry'',
      inflight = [FulfilledByTimer ''apple banana cherry'']\<rparr> \<and>
   showMnemonic (handled ''alice''
     (after [\<lparr>name = ''alice'', mnemonic = ''apple banana cherry''\<rparr>] ''alice''
        [Click, Click, Click, LookupSettles])) = None \<and>
   mnemonic (handled ''alice''
     (after [\<lparr>name = ''alice'', mnemonic = ''apple banana cherry''\<rparr>] ''alice''
        [Click, Click, Click, LookupSettles])) = Some ''apple banana cherry'' \<and>
   showMnemonic (click [\<lparr>name = ''alice'', mnemonic = ''apple banana cherry''\<rparr>] ''alice''
     (after [\<lparr>name = ''alice'', mnemonic = ''apple banana cherry''\<rparr>] ''alice''
        [Click, Click, Click, LookupSettles])) = None \<and>
   mnemonic (click [\<lparr>name = ''alice'', mnemonic = ''apple banana cherry''\<rparr>] ''alice''
     (after [\<lparr>name = ''alice'', mnemonic = ''apple banana cherry''\<rparr>] ''alice''
        [Click, Click, Click, LookupSettles])) = None \<and>
   inflight (click [\<lparr>name = ''alice'', mnemonic = ''apple banana cherry''\<rparr>] ''alice''
     (after [\<lparr>name = ''alice'', mnemonic = ''apple banana cherry''\<rparr>] ''alice''
        [Click, Click, Click, LookupSettles])) = [FulfilledByTimer ''apple banana cherry'']"
proof -
  let ?t = "[\<lparr>name = ''alice'', mnemonic = ''apple banana cherry''\<rparr>]"
  let ?s = "after ?t ''alice'' [Click, Click, Click, LookupSettles]"
  note inst = hide_effect_clears_mnemonic [of ?s "''alice''" ?t]
  have s: "?s = \<lparr>showMnemonic = Some ''alice'', mnemonic = Some ''apple banana cherry'',
      inflight = [FulfilledByTimer ''apple banana cherry'']\<rparr>"
    by (simp add: after_def mounted_def initial_def click_def handled_def commit_def
        onClick_def useEffect_def settle_def getMnemonic_resume_def fetchMnemonic_def)
  then have revealed: "truthy (showMnemonic ?s)"
    by simp
  have kept: "mnemonic (handled ''alice'' ?s) = mnemonic ?s"
    using inst by blast
  have hidden: "showMnemonic (handled ''alice'' ?s) = None \<and>
      showMnemonic (click ?t ''alice'' ?s) = None \<and>
      mnemonic (click ?t ''alice'' ?s) = None \<and>
      inflight (click ?t ''alice'' ?s) = inflight ?s"
    using inst revealed by blast
  then have "showMnemonic (handled ''alice'' ?s) \<noteq> showMnemonic ?s \<and>
      \<not> truthy (showMnemonic (handled ''alice'' ?s))"
    by (simp add: s)
  then have "mnemonic (click ?t ''alice'' ?s) = None \<and>
      inflight (click ?t ''alice'' ?s) = inflight ?s"
    using inst by blast
  with kept hidden s show ?thesis by simp
qed

text \<open>
  C4. Take an account name that a click reveals (any non-empty one). After a click to
  reveal and a click to hide with the lookup still unsettled, the state is hidden with
  no mnemonic stored, and the lookup is still in flight: hiding did not cancel it. When
  it then settles, the stored mnemonic is what it resolved with, and reveal state is
  still absent. The write does not look at reveal state: in any state whatever, the
  oldest lookup settling with a string stores that string and leaves reveal state alone.
\<close>

theorem stale_lookup_overwrites:
  "(accountName \<noteq> [] \<longrightarrow>
      after accounts accountName [Click, Click] =
        \<lparr>showMnemonic = None, mnemonic = None,
         inflight = [fetchMnemonic accounts accountName]\<rparr> \<and>
      showMnemonic (after accounts accountName [Click, Click, LookupSettles]) = None \<and>
      mnemonic (after accounts accountName [Click, Click, LookupSettles]) =
        resolution (fetchMnemonic accounts accountName) \<and>
      resolution (fetchMnemonic accounts accountName) \<noteq> None) \<and>
   (inflight s = p # ps \<and> resolution p = Some mnic \<longrightarrow>
      mnemonic (settle s) = Some mnic \<and> showMnemonic (settle s) = showMnemonic s)"
proof (intro conjI impI)
  assume n: "accountName \<noteq> []"
  obtain v where r: "resolution (fetchMnemonic accounts accountName) = Some v"
    using fetchMnemonic_resolution by blast
  show cc: "after accounts accountName [Click, Click] =
        \<lparr>showMnemonic = None, mnemonic = None,
         inflight = [fetchMnemonic accounts accountName]\<rparr>"
    using n by (rule after_Click_Click)
  have "after accounts accountName [Click, Click, LookupSettles] =
      settle (after accounts accountName [Click, Click])"
    using after_snoc [of accounts accountName "[Click, Click]" LookupSettles] by simp
  also have "\<dots> = \<lparr>showMnemonic = None, mnemonic = Some v, inflight = []\<rparr>"
    using r by (simp add: cc settle_def getMnemonic_resume_def)
  finally have s3: "after accounts accountName [Click, Click, LookupSettles] =
      \<lparr>showMnemonic = None, mnemonic = Some v, inflight = []\<rparr>" .
  show "showMnemonic (after accounts accountName [Click, Click, LookupSettles]) = None"
    by (simp add: s3)
  show "mnemonic (after accounts accountName [Click, Click, LookupSettles]) =
        resolution (fetchMnemonic accounts accountName)"
    by (simp add: s3 r)
  show "resolution (fetchMnemonic accounts accountName) \<noteq> None"
    by (simp add: r)
next
  assume "inflight s = p # ps \<and> resolution p = Some mnic"
  then show "mnemonic (settle s) = Some mnic"
    by (simp add: settle_Cons)
next
  show "showMnemonic (settle s) = showMnemonic s"
    by (rule showMnemonic_settle)
qed

theorem stale_lookup_overwrites_witness:
  "after [\<lparr>name = ''alice'', mnemonic = ''apple banana cherry''\<rparr>] ''alice'' [Click, Click] =
     \<lparr>showMnemonic = None, mnemonic = None,
      inflight = [FulfilledByTimer ''apple banana cherry'']\<rparr> \<and>
   showMnemonic (after [\<lparr>name = ''alice'', mnemonic = ''apple banana cherry''\<rparr>] ''alice''
     [Click, Click, LookupSettles]) = None \<and>
   mnemonic (after [\<lparr>name = ''alice'', mnemonic = ''apple banana cherry''\<rparr>] ''alice''
     [Click, Click, LookupSettles]) = Some ''apple banana cherry'' \<and>
   mnemonic (settle (after [\<lparr>name = ''alice'', mnemonic = ''apple banana cherry''\<rparr>] ''alice''
     [Click, Click])) = Some ''apple banana cherry'' \<and>
   showMnemonic (settle (after [\<lparr>name = ''alice'', mnemonic = ''apple banana cherry''\<rparr>]
     ''alice'' [Click, Click])) = None"
proof -
  let ?t = "[\<lparr>name = ''alice'', mnemonic = ''apple banana cherry''\<rparr>]"
  let ?p = "FulfilledByTimer ''apple banana cherry''"
  have f: "fetchMnemonic ?t ''alice'' = ?p"
    by (simp add: fetchMnemonic_def)
  have n: "''alice'' \<noteq> []" by simp
  have a: "after ?t ''alice'' [Click, Click] =
        \<lparr>showMnemonic = None, mnemonic = None, inflight = [fetchMnemonic ?t ''alice'']\<rparr> \<and>
      showMnemonic (after ?t ''alice'' [Click, Click, LookupSettles]) = None \<and>
      mnemonic (after ?t ''alice'' [Click, Click, LookupSettles]) =
        resolution (fetchMnemonic ?t ''alice'')"
    using stale_lookup_overwrites [of "''alice''" ?t] n by blast
  then have q: "inflight (after ?t ''alice'' [Click, Click]) = ?p # [] \<and>
      resolution ?p = Some ''apple banana cherry''"
    by (simp add: f)
  have b: "mnemonic (settle (after ?t ''alice'' [Click, Click])) = Some ''apple banana cherry'' \<and>
      showMnemonic (settle (after ?t ''alice'' [Click, Click])) =
        showMnemonic (after ?t ''alice'' [Click, Click])"
    using stale_lookup_overwrites [of "''alice''" ?t "after ?t ''alice'' [Click, Click]" ?p "[]"
        "''apple banana cherry''"] q by blast
  from a b show ?thesis by (simp add: f)
qed



subsection \<open>Lookups and what is rendered of them\<close>

text \<open>
  C8. The promise of a lookup never rejects: for every table and every name it resolves
  with a string. A name that no row carries is reported by the promise resolving with
  \<open>''n/a''\<close>. The render treats that string like any mnemonic: for a non-empty name
  with no row, a click and the lookup settling show \<open>''Hide mnemonic''\<close> with the
  caption \<open>''n/a''\<close>; and after any events the render is the one a table gives in which
  the lookup succeeds with the mnemonic \<open>''n/a''\<close>.
\<close>

theorem fetchMnemonic_never_rejects:
  "fetchMnemonic accounts accountName \<noteq> Rejected \<and>
   (\<exists>mnic. resolution (fetchMnemonic accounts accountName) = Some mnic) \<and>
   ((\<forall>acc\<in>set accounts. name acc \<noteq> accountName) \<longrightarrow>
      fetchMnemonic accounts accountName = Fulfilled ''n/a'') \<and>
   ((\<forall>acc\<in>set accounts. name acc \<noteq> accountName) \<and> accountName \<noteq> [] \<longrightarrow>
      render (after accounts accountName [Click, LookupSettles]) =
        \<lparr>label = ''Hide mnemonic'', caption = Some ''n/a''\<rparr>) \<and>
   ((\<forall>acc\<in>set accounts. name acc \<noteq> accountName) \<and>
    resolution (fetchMnemonic others accountName) = Some ''n/a'' \<longrightarrow>
      render (after accounts accountName evs) = render (after others accountName evs))"
proof (intro conjI impI)
  show "fetchMnemonic accounts accountName \<noteq> Rejected"
    using fetchMnemonic_resolution [of accounts accountName] by auto
  show "\<exists>mnic. resolution (fetchMnemonic accounts accountName) = Some mnic"
    by (rule fetchMnemonic_resolution)
next
  assume "\<forall>acc\<in>set accounts. name acc \<noteq> accountName"
  then show "fetchMnemonic accounts accountName = Fulfilled ''n/a''"
    by (rule fetchMnemonic_none)
next
  assume h: "(\<forall>acc\<in>set accounts. name acc \<noteq> accountName) \<and> accountName \<noteq> []"
  then have "resolution (fetchMnemonic accounts accountName) = Some ''n/a''"
    by (simp add: fetchMnemonic_none)
  with h show "render (after accounts accountName [Click, LookupSettles]) =
        \<lparr>label = ''Hide mnemonic'', caption = Some ''n/a''\<rparr>"
    by (simp add: after_Click_Settle render_def)
next
  assume h: "(\<forall>acc\<in>set accounts. name acc \<noteq> accountName) \<and>
    resolution (fetchMnemonic others accountName) = Some ''n/a''"
  then have "resolution (fetchMnemonic accounts accountName) =
      resolution (fetchMnemonic others accountName)"
    by (simp add: fetchMnemonic_none)
  then show "render (after accounts accountName evs) = render (after others accountName evs)"
    by (rule render_same_resolution)
qed

theorem fetchMnemonic_never_rejects_witness:
  "fetchMnemonic [\<lparr>name = ''alice'', mnemonic = ''apple banana cherry''\<rparr>] ''ghost'' =
     Fulfilled ''n/a'' \<and>
   render (after [\<lparr>name = ''alice'', mnemonic = ''apple banana cherry''\<rparr>] ''ghost''
     [Click, LookupSettles]) = \<lparr>label = ''Hide mnemonic'', caption = Some ''n/a''\<rparr> \<and>
   render (after [\<lparr>name = ''ghost'', mnemonic = ''n/a''\<rparr>] ''ghost''
     [Click, LookupSettles]) = \<lparr>label = ''Hide mnemonic'', caption = Some ''n/a''\<rparr>"
proof -
  let ?t = "[\<lparr>name = ''alice'', mnemonic = ''apple banana cherry''\<rparr>]"
  let ?others = "[\<lparr>name = ''ghost'', mnemonic = ''n/a''\<rparr>]"
  note inst = fetchMnemonic_never_rejects [of ?t "''ghost''" ?others "[Click, LookupSettles]"]
  have none: "\<forall>acc\<in>set ?t. name acc \<noteq> ''ghost''" by simp
  have n: "''ghost'' \<noteq> []" by simp
  have found: "resolution (fetchMnemonic ?others ''ghost'') = Some ''n/a''"
    by (simp add: fetchMnemonic_def)
  have a: "fetchMnemonic ?t ''ghost'' = Fulfilled ''n/a''"
    using inst none by blast
  have b: "render (after ?t ''ghost'' [Click, LookupSettles]) =
      \<lparr>label = ''Hide mnemonic'', caption = Some ''n/a''\<rparr>"
    using inst none n by blast
  have c: "render (after ?t ''ghost'' [Click, LookupSettles]) =
      render (after ?others ''ghost'' [Click, LookupSettles])"
    using inst none found by blast
  from a b c show ?thesis by simp
qed

text \<open>
  C9. The caption is rendered exactly when the stored mnemonic is a string that is not
  empty, and then it is that string. In particular, for a non-empty account name whose
  row has the empty string as mnemonic, a click and the lookup settling leave the state
  revealed with the empty string stored, and the render has no caption: it is the
  render from before the lookup settled.
\<close>

theorem caption_iff_mnemonic_nonempty:
  "(caption (render s) \<noteq> None \<longleftrightarrow> (\<exists>m. mnemonic s = Some m \<and> m \<noteq> [])) \<and>
   (caption (render s) \<noteq> None \<longrightarrow> caption (render s) = mnemonic s) \<and>
   (accountName \<noteq> [] \<and>
    find (\<lambda>acc. name acc = accountName) accounts = Some account \<and>
    account.mnemonic account = [] \<longrightarrow>
      after accounts accountName [Click, LookupSettles] =
        \<lparr>showMnemonic = Some accountName, mnemonic = Some [], inflight = []\<rparr> \<and>
      render (after accounts accountName [Click, LookupSettles]) =
        \<lparr>label = ''Hide mnemonic'', caption = None\<rparr> \<and>
      render (after accounts accountName [Click, LookupSettles]) =
        render (after accounts accountName [Click]))"
proof (intro conjI impI)
  show "caption (render s) \<noteq> None \<longleftrightarrow> (\<exists>m. mnemonic s = Some m \<and> m \<noteq> [])"
    by (cases "mnemonic s") (simp_all add: render_def)
next
  assume "caption (render s) \<noteq> None"
  then show "caption (render s) = mnemonic s"
    by (simp add: render_def split: if_splits)
next
  assume h: "accountName \<noteq> [] \<and>
    find (\<lambda>acc. name acc = accountName) accounts = Some account \<and>
    account.mnemonic account = []"
  then have "resolution (fetchMnemonic accounts accountName) = Some []"
    by (simp add: fetchMnemonic_def)
  with h show st: "after accounts accountName [Click, LookupSettles] =
        \<lparr>showMnemonic = Some accountName, mnemonic = Some [], inflight = []\<rparr>"
    by (simp add: after_Click_Settle)
  from h show "render (after accounts accountName [Click, LookupSettles]) =
        \<lparr>label = ''Hide mnemonic'', caption = None\<rparr>"
    by (simp add: st render_def)
  from h show "render (after accounts accountName [Click, LookupSettles]) =
        render (after accounts accountName [Click])"
    by (simp add: st after_Click render_def initial_def)
qed

theorem caption_iff_mnemonic_nonempty_witness:
  "caption (render \<lparr>showMnemonic = Some ''alice'', mnemonic = Some ''apple banana cherry'',
      inflight = []\<rparr>) = Some ''apple banana cherry'' \<and>
   after [\<lparr>name = ''bob'', mnemonic = []\<rparr>] ''bob'' [Click, LookupSettles] =
     \<lparr>showMnemonic = Some ''bob'', mnemonic = Some [], inflight = []\<rparr> \<and>
   render (after [\<lparr>name = ''bob'', mnemonic = []\<rparr>] ''bob'' [Click, LookupSettles]) =
     \<lparr>label = ''Hide mnemonic'', caption = None\<rparr> \<and>
   render (after [\<lparr>name = ''bob'', mnemonic = []\<rparr>] ''bob'' [Click, LookupSettles]) =
     render (after [\<lparr>name = ''bob'', mnemonic = []\<rparr>] ''bob'' [Click])"
proof -
  let ?s = "\<lparr>showMnemonic = Some ''alice'', mnemonic = Some ''apple banana cherry'',
      inflight = []\<rparr>"
  let ?row = "\<lparr>name = ''bob'', mnemonic = []\<rparr>"
  note inst = caption_iff_mnemonic_nonempty [of ?s "''bob''" "[?row]" ?row]
  have "\<exists>m. mnemonic ?s = Some m \<and> m \<noteq> []" by simp
  then have "caption (render ?s) \<noteq> None"
    using inst by blast
  then have a: "caption (render ?s) = mnemonic ?s"
    using inst by blast
  have "''bob'' \<noteq> [] \<and> find (\<lambda>acc. name acc = ''bob'') [?row] = Some ?row \<and>
      account.mnemonic ?row = []"
    by simp
  then have b: "after [?row] ''bob'' [Click, LookupSettles] =
        \<lparr>showMnemonic = Some ''bob'', mnemonic = Some [], inflight = []\<rparr> \<and>
      render (after [?row] ''bob'' [Click, LookupSettles]) =
        \<lparr>label = ''Hide mnemonic'', caption = None\<rparr> \<and>
      render (after [?row] ''bob'' [Click, LookupSettles]) =
        render (after [?row] ''bob'' [Click])"
    using inst by blast
  from a have "caption (render ?s) = Some ''apple banana cherry''"
    by simp
  with b show ?thesis by blast
qed

subsection \<open>The empty account name\<close>

text \<open>
  The handler, the effect and the label all ask whether \<open>showMnemonic\<close> is true as a
  JavaScript value, and the empty string is not. With a non-empty account name the
  reachable values of \<open>showMnemonic\<close> are \<open>None\<close> and \<open>Some accountName\<close>, and asking
  for truth is asking for presence: the lemmas below are the label and the toggle for
  such names. With the empty string as account name the two questions differ, and the
  theorems after them evaluate the component there.
\<close>

lemma label_two_values:
  "label (render s) = ''Show mnemonic'' \<or> label (render s) = ''Hide mnemonic''"
  by (simp add: render_def)

lemma label_by_reveal_state:
  assumes "accountName \<noteq> []"
  shows "label (render (after accounts accountName evs)) =
    (if showMnemonic (after accounts accountName evs) = None
     then ''Show mnemonic'' else ''Hide mnemonic'')"
  using agree_after [of accounts accountName evs] assms by (auto simp: render_def)

lemma onClick_toggle:
  "(showMnemonic s = None \<longrightarrow>
      showMnemonic (snd (onClick accountName (e, s))) = Some accountName) \<and>
   (truthy (showMnemonic s) \<longrightarrow> showMnemonic (snd (onClick accountName (e, s))) = None) \<and>
   mnemonic (snd (onClick accountName (e, s))) = mnemonic s \<and>
   inflight (snd (onClick accountName (e, s))) = inflight s \<and>
   propagationStopped (fst (onClick accountName (e, s)))"
  by (simp add: onClick_def)

lemma onClick_toggle_reachable:
  assumes "accountName \<noteq> []"
  shows "showMnemonic (snd (onClick accountName (e, after accounts accountName evs))) =
    (if showMnemonic (after accounts accountName evs) = None
     then Some accountName else None)"
  using agree_after [of accounts accountName evs] assms by (auto simp: onClick_def)

text \<open>
  C2. The claim is that with the empty string as account name a click reveals and the
  render comes to show \<open>''n/a''\<close>, as for any name without a row. In the code, after any
  sequence of clicks and settled lookups, on any table, the label reads
  \<open>''Show mnemonic''\<close>, there is no caption and no lookup was started; the click did
  store the (empty) account name. A non-empty name without a row does come to show
  \<open>''n/a''\<close> (C8), and the lookup itself resolves with it for the empty name, here on
  the empty table.
\<close>

theorem empty_accountName_shows_nothing:
  "render (after accounts [] evs) = \<lparr>label = ''Show mnemonic'', caption = None\<rparr> \<and>
   inflight (after accounts [] evs) = [] \<and>
   showMnemonic (after accounts [] [Click]) = Some [] \<and>
   resolution (fetchMnemonic [] []) = Some ''n/a''"
  using empty_name_after [of accounts evs]
  by (simp add: render_def after_Click fetchMnemonic_def)

text \<open>
  C6. The claim is that the label reads \<open>''Hide mnemonic''\<close> in every reachable state in
  which reveal state is present. With the empty string as account name, one click
  reaches a state in which \<open>showMnemonic\<close> is present (it is the empty string) and the
  label reads \<open>''Show mnemonic''\<close>.
\<close>

theorem empty_accountName_label:
  "showMnemonic (after accounts [] [Click]) = Some [] \<and>
   label (render (after accounts [] [Click])) = ''Show mnemonic''"
  by (simp add: after_Click render_def)

text \<open>
  C7. The claim is that a click on a present reveal state sets it to absent. With the
  empty string as account name, the first click stores the empty string and every later
  click stores it again: the handler, run on a state whose \<open>showMnemonic\<close> is the empty
  string, returns the account name and not \<open>undefined\<close>.
\<close>

theorem empty_accountName_click_not_toggle:
  "showMnemonic (after accounts [] [Click]) = Some [] \<and>
   showMnemonic (after accounts [] [Click, Click]) = Some [] \<and>
   showMnemonic (snd (onClick [] (e, s\<lparr>showMnemonic := Some []\<rparr>))) = Some []"
  by (simp add: after_def mounted_initial initial_def click_def handled_def commit_def onClick_def
      useEffect_def)

end
